theory Spec2Isabelle
  imports Complex_Main "HOL-Library.Sublist" "HOL-Library.Log_Nat"
begin

section \<open>Text\<close>

text \<open>
  The backend is Python and the chat client is TypeScript.  A text of either language is
  modelled as a \<^typ>\<open>string\<close>, one \<^typ>\<open>char\<close> for each character that the
  language's own length function counts, so \<^term>\<open>length s\<close> is Python's \<open>len(s)\<close>
  and JavaScript's \<open>s.length\<close>.  The characters that \<open>str.strip()\<close> and
  \<open>String.prototype.trim()\<close> remove are listed for the range a \<^typ>\<open>char\<close> covers
  (code points 0 to 255).
\<close>

definition py_isspace :: "char \<Rightarrow> bool" where
  \<comment> \<open>\<open>str.isspace\<close>: TAB, LF, VT, FF, CR, FS, GS, RS, US, SPACE, NEL, NBSP\<close>
  "py_isspace c \<longleftrightarrow>
     (of_char c :: nat) \<in> {9, 10, 11, 12, 13, 28, 29, 30, 31, 32, 133, 160}"

definition py_strip :: "string \<Rightarrow> string" where
  \<comment> \<open>\<open>s.strip()\<close>: leading and trailing whitespace removed\<close>
  "py_strip s = rev (dropWhile py_isspace (rev (dropWhile py_isspace s)))"

definition js_isspace :: "char \<Rightarrow> bool" where
  \<comment> \<open>ECMAScript WhiteSpace and LineTerminator: TAB, LF, VT, FF, CR, SPACE, NBSP\<close>
  "js_isspace c \<longleftrightarrow> (of_char c :: nat) \<in> {9, 10, 11, 12, 13, 32, 160}"

definition js_trim :: "string \<Rightarrow> string" where
  \<comment> \<open>\<open>s.trim()\<close>\<close>
  "js_trim s = rev (dropWhile js_isspace (rev (dropWhile js_isspace s)))"


section \<open>Numbers\<close>

text \<open>
  A Python \<open>float\<close> and a JavaScript \<open>number\<close> are IEEE 754 binary64 values: a finite
  value, which is a rational number, one of the two infinities, or NaN.  The sign of zero
  is not distinguished; no function below depends on it.
\<close>

datatype float64 = Finite rat | PosInf | NegInf | NaN

text \<open>
  Arithmetic delivers the exact result rounded to the nearest binary64 value, a tie
  going to the value with the even significand.  Around a number \<open>x\<close> with
  \<open>2 ^ e \<le> |x| < 2 ^ (e + 1)\<close> the binary64 values are the multiples of \<open>2 ^ (e - 52)\<close>
  (53 significant bits), and the multiples of \<open>2 ^ (- 1074)\<close> in the subnormal range; a
  rounded result beyond the largest finite value, \<open>(2 ^ 53 - 1) * 2 ^ 971\<close>, is an
  infinity.  \<open>fl x\<close> is the binary64 value of the exact number \<open>x\<close>; the value of the
  decimal literal \<open>0.4\<close> is \<open>fl (4 / 10)\<close>.
\<close>

definition floor_log2 :: "rat \<Rightarrow> int" where
  \<comment> \<open>\<open>\<lfloor>log\<^sub>2 x\<rfloor>\<close> for \<open>x > 0\<close>, computed from the number of binary digits\<close>
  "floor_log2 x =
     (if 1 \<le> x then bitlen \<lfloor>x\<rfloor> - 1 else - bitlen (\<lceil>1 / x\<rceil> - 1))"

definition round_half_even :: "rat \<Rightarrow> int" where
  \<comment> \<open>the nearest integer, a tie going to the even one\<close>
  "round_half_even y =
     (let f = \<lfloor>y\<rfloor>; d = y - of_int f
      in if d < 1 / 2 then f else if 1 / 2 < d then f + 1 else if even f then f else f + 1)"

definition quantum :: "rat \<Rightarrow> rat" where
  \<comment> \<open>the distance between neighbouring binary64 values around \<open>x \<noteq> 0\<close>\<close>
  "quantum x = 2 powi (max (floor_log2 \<bar>x\<bar> - 52) (- 1074))"

definition round_to_binary64 :: "rat \<Rightarrow> rat" where
  "round_to_binary64 x =
     (if x = 0 then 0 else of_int (round_half_even (x / quantum x)) * quantum x)"

definition max_binary64 :: rat where
  "max_binary64 = (2 ^ 53 - 1) * 2 ^ 971"

definition fl :: "rat \<Rightarrow> float64" where
  "fl x =
     (let r = round_to_binary64 x
      in if max_binary64 < r then PosInf else if r < - max_binary64 then NegInf else Finite r)"

text \<open>
  Multiplication and addition, with the IEEE rules for the special values: NaN
  propagates, zero times infinity and infinity minus infinity are NaN.  Neither language
  raises an error for them.
\<close>

definition float_sign :: "float64 \<Rightarrow> rat" where
  "float_sign x = (case x of Finite a \<Rightarrow> sgn a | PosInf \<Rightarrow> 1 | NegInf \<Rightarrow> - 1 | NaN \<Rightarrow> 0)"

definition signed_infinity :: "rat \<Rightarrow> float64" where
  "signed_infinity s = (if 0 < s then PosInf else if s < 0 then NegInf else NaN)"

fun float_mul :: "float64 \<Rightarrow> float64 \<Rightarrow> float64" where
  "float_mul (Finite a) (Finite b) = fl (a * b)"
| "float_mul NaN y = NaN"
| "float_mul x NaN = NaN"
| "float_mul x y = signed_infinity (float_sign x * float_sign y)"

fun float_add :: "float64 \<Rightarrow> float64 \<Rightarrow> float64" where
  "float_add (Finite a) (Finite b) = fl (a + b)"
| "float_add NaN y = NaN"
| "float_add x NaN = NaN"
| "float_add PosInf NegInf = NaN"
| "float_add NegInf PosInf = NaN"
| "float_add PosInf y = PosInf"
| "float_add x PosInf = PosInf"
| "float_add NegInf y = NegInf"
| "float_add x NegInf = NegInf"

text \<open>
  Python's \<open>round(x, ndigits)\<close> on a float, for \<open>ndigits \<ge> 0\<close>: CPython rounds the exact
  value of \<open>x\<close> to \<open>ndigits\<close> decimals, a tie going to the even digit, and returns the
  binary64 value nearest to that decimal number.  Infinities and NaN are returned as they
  are.
\<close>

fun py_round :: "float64 \<Rightarrow> nat \<Rightarrow> float64" where
  "py_round (Finite a) ndigits = fl (of_int (round_half_even (a * 10 ^ ndigits)) / 10 ^ ndigits)"
| "py_round x ndigits = x"

text \<open>
  JavaScript's \<open>>=\<close> on numbers (false as soon as one side is NaN) and \<open>Math.round\<close>
  (the nearest integer, a tie going up; infinities and NaN are returned as they are).
\<close>

fun js_ge :: "float64 \<Rightarrow> float64 \<Rightarrow> bool" where
  "js_ge (Finite a) (Finite b) = (b \<le> a)"
| "js_ge NaN y = False"
| "js_ge x NaN = False"
| "js_ge PosInf y = True"
| "js_ge x NegInf = True"
| "js_ge x y = False"

fun Math_round :: "float64 \<Rightarrow> float64" where
  "Math_round (Finite a) = Finite (of_int \<lfloor>a + 1 / 2\<rfloor>)"
| "Math_round x = x"


section \<open>Query processing (backend)\<close>

text \<open>
  \<^verbatim>\<open>
  def validate_query(query: str) -> bool:
      if not query or len(query.strip()) == 0:
          return False
      if len(query) > 1000:  # Character limit
          return False
      return True
  \<close>
\<close>

definition validate_query :: "string \<Rightarrow> bool" where
  "validate_query query =
     (if query = [] \<or> length (py_strip query) = 0 then False
      else if length query > 1000 then False
      else True)"

text \<open>
  \<^verbatim>\<open>
  def enhance_query(query: str) -> str:
      # Add context keywords for better retrieval
      enhanced = f"RA training {query} procedures policy"
      return enhanced
  \<close>
\<close>

definition enhance_query :: "string \<Rightarrow> string" where
  "enhance_query query = ''RA training '' @ query @ '' procedures policy''"

section \<open>Confidence scoring (backend)\<close>

text \<open>
  \<open>calculate_confidence\<close> is a method of \<open>RAGEngine\<close>.  The four methods it calls,
  \<open>_calculate_source_relevance\<close>, \<open>_calculate_response_completeness\<close>,
  \<open>_calculate_consistency\<close> and \<open>_calculate_complexity_match\<close>, are not part of the
  sources: they are fields of the record that stands for \<open>self\<close> (an identifier cannot
  start with an underscore, so the names go without it).  The type \<open>'d\<close> is that of one
  source, a \<open>Dict\<close>.
  \<^verbatim>\<open>
  def calculate_confidence(self, query: str, response: str, sources: List[Dict]) -> float:
      # Factor 1: Source relevance (40% weight)
      relevance_score = self._calculate_source_relevance(query, sources)

      # Factor 2: Response completeness (30% weight)
      completeness_score = self._calculate_response_completeness(response)

      # Factor 3: Factual consistency (20% weight)
      consistency_score = self._calculate_consistency(response, sources)

      # Factor 4: Query complexity match (10% weight)
      complexity_score = self._calculate_complexity_match(query, response)

      confidence = (
          relevance_score * 0.4 +
          completeness_score * 0.3 +
          consistency_score * 0.2 +
          complexity_score * 0.1
      )

      return round(confidence, 3)
  \<close>
\<close>

record 'd rag_engine =
  calculate_source_relevance :: "string \<Rightarrow> 'd list \<Rightarrow> float64"
  calculate_response_completeness :: "string \<Rightarrow> float64"
  calculate_consistency :: "string \<Rightarrow> 'd list \<Rightarrow> float64"
  calculate_complexity_match :: "string \<Rightarrow> string \<Rightarrow> float64"

definition calculate_confidence :: "('d, 'a) rag_engine_scheme \<Rightarrow> string \<Rightarrow> string \<Rightarrow> 'd list \<Rightarrow> float64" where
  "calculate_confidence self query response sources =
     (let relevance_score = calculate_source_relevance self query sources;
          completeness_score = calculate_response_completeness self response;
          consistency_score = calculate_consistency self response sources;
          complexity_score = calculate_complexity_match self query response;
          confidence =
            float_add
              (float_add
                 (float_add (float_mul relevance_score (fl (4 / 10)))
                            (float_mul completeness_score (fl (3 / 10))))
                 (float_mul consistency_score (fl (2 / 10))))
              (float_mul complexity_score (fl (1 / 10)))
      in py_round confidence 3)"


section \<open>Document processing (backend)\<close>

text \<open>
  \<open>chunk_text\<close> is a method of \<open>PDFProcessor\<close>.  Of the object it only uses the method
  \<open>split_into_sentences\<close>, whose body is not part of the sources: it is a field of the
  record that stands for \<open>self\<close>, so every statement below holds for any sentence
  splitter.
\<close>

record pdf_processor =
  split_into_sentences :: "string \<Rightarrow> string list"

text \<open>
  \<^verbatim>\<open>
  def chunk_text(self, text: str, chunk_size: int = 600, overlap: int = 100) -> List[str]:
      # Split by sentences first
      sentences = self.split_into_sentences(text)

      chunks = []
      current_chunk = ""

      for sentence in sentences:
          if len(current_chunk) + len(sentence) < chunk_size:
              current_chunk += sentence + " "
          else:
              if current_chunk:
                  chunks.append(current_chunk.strip())
              current_chunk = sentence + " "

      # Add final chunk
      if current_chunk:
          chunks.append(current_chunk.strip())

      return chunks
  \<close>
  The \<open>for\<close> loop is \<open>chunk_loop\<close>: it takes the sentences still to visit and the two
  variables the loop assigns, \<open>chunks\<close> and \<open>current_chunk\<close>, and returns their values
  after the last sentence.
\<close>

fun chunk_loop :: "int \<Rightarrow> string list \<Rightarrow> string list \<Rightarrow> string \<Rightarrow> string list \<times> string" where
  "chunk_loop chunk_size [] chunks current_chunk = (chunks, current_chunk)"
| "chunk_loop chunk_size (sentence # sentences) chunks current_chunk =
     (if int (length current_chunk) + int (length sentence) < chunk_size
      then chunk_loop chunk_size sentences chunks (current_chunk @ sentence @ '' '')
      else chunk_loop chunk_size sentences
             (if current_chunk \<noteq> [] then chunks @ [py_strip current_chunk] else chunks)
             (sentence @ '' ''))"

definition chunk_text :: "'a pdf_processor_scheme \<Rightarrow> string \<Rightarrow> int \<Rightarrow> int \<Rightarrow> string list" where
  "chunk_text self text chunk_size overlap =
     (let sentences = split_into_sentences self text;
          (chunks, current_chunk) = chunk_loop chunk_size sentences [] []
      in if current_chunk \<noteq> [] then chunks @ [py_strip current_chunk] else chunks)"

text \<open>
  The same method as a relation between the arguments of a call and the list the call
  returns.  A run of the method is a derivation: \<open>loop_run\<close> has one rule for the end
  of the \<open>for\<close> loop and one rule for each path through its body (the sentence fits; it
  does not fit and \<open>current_chunk\<close> is appended to \<open>chunks\<close>; it does not fit and
  \<open>current_chunk\<close> is empty), and \<open>chunk_text_run\<close> puts the call of the splitter
  before the loop and the final \<open>if\<close> after it.
\<close>

inductive loop_run :: "int \<Rightarrow> string list \<Rightarrow> string list \<Rightarrow> string \<Rightarrow> string list \<times> string \<Rightarrow> bool" where
  loop_end:
    "loop_run chunk_size [] chunks current_chunk (chunks, current_chunk)"
| loop_extend:
    "int (length current_chunk) + int (length sentence) < chunk_size \<Longrightarrow>
     loop_run chunk_size sentences chunks (current_chunk @ sentence @ '' '') final \<Longrightarrow>
     loop_run chunk_size (sentence # sentences) chunks current_chunk final"
| loop_flush:
    "\<not> int (length current_chunk) + int (length sentence) < chunk_size \<Longrightarrow>
     current_chunk \<noteq> [] \<Longrightarrow>
     loop_run chunk_size sentences (chunks @ [py_strip current_chunk]) (sentence @ '' '') final \<Longrightarrow>
     loop_run chunk_size (sentence # sentences) chunks current_chunk final"
| loop_start:
    "\<not> int (length current_chunk) + int (length sentence) < chunk_size \<Longrightarrow>
     current_chunk = [] \<Longrightarrow>
     loop_run chunk_size sentences chunks (sentence @ '' '') final \<Longrightarrow>
     loop_run chunk_size (sentence # sentences) chunks current_chunk final"

inductive chunk_text_run :: "'a pdf_processor_scheme \<Rightarrow> string \<Rightarrow> int \<Rightarrow> int \<Rightarrow> string list \<Rightarrow> bool" where
  chunk_text_returns:
    "sentences = split_into_sentences self text \<Longrightarrow>
     loop_run chunk_size sentences [] [] (chunks, current_chunk) \<Longrightarrow>
     result = (if current_chunk \<noteq> [] then chunks @ [py_strip current_chunk] else chunks) \<Longrightarrow>
     chunk_text_run self text chunk_size overlap result"

definition stub_processor :: "string list \<Rightarrow> pdf_processor" where
  \<comment> \<open>a test double for \<open>self\<close>: its splitter answers with the given sentences\<close>
  "stub_processor sentences = \<lparr>split_into_sentences = (\<lambda>text. sentences)\<rparr>"

section \<open>The chat operation (backend)\<close>

text \<open>
  \<^verbatim>\<open>
  def create_user_prompt(query: str, context: str) -> str:
      return f"""
  Based on the following training materials, please answer this RA question:

  Question: {query}

  Training Materials:
  {context}

  Please provide a helpful, accurate response with clear action steps.
  """
  \<close>
\<close>

definition newline :: string where
  "newline = [CHR 0x0A]"

definition create_user_prompt :: "string \<Rightarrow> string \<Rightarrow> string" where
  "create_user_prompt query context =
     newline
     @ ''Based on the following training materials, please answer this RA question:'' @ newline
     @ newline
     @ ''Question: '' @ query @ newline
     @ newline
     @ ''Training Materials:'' @ newline
     @ context @ newline
     @ newline
     @ ''Please provide a helpful, accurate response with clear action steps.'' @ newline"

text \<open>
  Modelled from the spec: the handler of \<open>POST /chat\<close> (\<open>app.py\<close>), which is not among
  the sources.  The specification says of it: ``Validation: query must be non-empty and
  \<open>\<le>\<close>1000 characters, else a client-error response naming the violated constraint'', and
  ``query longer than 1000 characters \<open>\<rightarrow>\<close> \<open>/chat\<close> returns a validation error, HTTP
  400-equivalent, no call made to the completion service''.  A valid query goes through
  retrieval and one call of the completion service.  The retrieval engine and the
  completion service are parameters; a run returns the reply together with the prompts
  that were sent to the completion service, in order.
\<close>

datatype violated_constraint = QueryEmpty | QueryTooLong

datatype chat_reply =
    ClientError violated_constraint  \<comment> \<open>the HTTP 400 answer\<close>
  | ChatAnswer string

record chat_run =
  reply :: chat_reply
  completion_calls :: "string list"

definition chat :: "(string \<Rightarrow> string) \<Rightarrow> (string \<Rightarrow> string) \<Rightarrow> string \<Rightarrow> chat_run" where
  \<comment> \<open>Modelled from the spec: validation first, the completion service only afterwards\<close>
  "chat retrieve completion query =
     (if \<not> validate_query query
      then \<lparr>reply = ClientError (if py_strip query = [] then QueryEmpty else QueryTooLong),
            completion_calls = []\<rparr>
      else (let prompt = create_user_prompt query (retrieve query)
            in \<lparr>reply = ChatAnswer (completion prompt), completion_calls = [prompt]\<rparr>))"

section \<open>Presentation of the confidence (frontend, \<open>lib/utils.ts\<close>)\<close>

text \<open>
  \<^verbatim>\<open>
  export function formatConfidence(confidence: number): string {
    const percentage = Math.round(confidence * 100);
    if (percentage >= 80) return 'High';
    if (percentage >= 60) return 'Medium';
    if (percentage >= 40) return 'Low';
    return 'Very Low';
  }

  export function getConfidenceColor(confidence: number): string {
    const percentage = Math.round(confidence * 100);
    if (percentage >= 80) return 'text-green-600';
    if (percentage >= 60) return 'text-yellow-600';
    if (percentage >= 40) return 'text-orange-600';
    return 'text-red-600';
  }
  \<close>
\<close>

definition formatConfidence :: "float64 \<Rightarrow> string" where
  "formatConfidence confidence =
     (let percentage = Math_round (float_mul confidence (Finite 100))
      in if js_ge percentage (Finite 80) then ''High''
         else if js_ge percentage (Finite 60) then ''Medium''
         else if js_ge percentage (Finite 40) then ''Low''
         else ''Very Low'')"

definition getConfidenceColor :: "float64 \<Rightarrow> string" where
  "getConfidenceColor confidence =
     (let percentage = Math_round (float_mul confidence (Finite 100))
      in if js_ge percentage (Finite 80) then ''text-green-600''
         else if js_ge percentage (Finite 60) then ''text-yellow-600''
         else if js_ge percentage (Finite 40) then ''text-orange-600''
         else ''text-red-600'')"


section \<open>The API client (frontend, \<open>lib/api.ts\<close>)\<close>

text \<open>
  \<^verbatim>\<open>
  export interface ChatMessage { query: string; session_id?: string; }
  export interface ChatResponse {
    status: 'success' | 'error';
    data?: { answer: string; sources: string[]; links: string[];
             confidence: number; query: string; timestamp: string; };
    message?: string;
    timestamp: string;
  }
  \<close>
  The request interface is called \<open>ChatRequest\<close> here, since the page has a
  \<open>ChatMessage\<close> interface of its own.  Optional fields are \<^typ>\<open>'a option\<close>.
\<close>

record ChatRequest =
  req_query :: string
  session_id :: "string option"

datatype response_status = Success | Error

record response_data =
  d_answer :: string
  d_sources :: "string list"
  d_links :: "string list"
  d_confidence :: float64
  d_query :: string
  d_timestamp :: string

record ChatResponse =
  status :: response_status
  data :: "response_data option"
  message :: "string option"
  resp_timestamp :: string

text \<open>
  What \<open>await this.axiosInstance.post('/api/chat', message)\<close> can do: resolve with a
  response whose \<open>data\<close> is the body, or reject.  A rejection is an axios error, which
  carries the backend's response when there was one, or some other exception.  The data of
  an error response is \<^term>\<open>None\<close> when the response has no body (\<open>undefined\<close>, or the
  empty string axios yields for an empty body: both are falsy); a body that is a
  \<open>ChatResponse\<close> object is truthy.
\<close>

record error_response =
  http_status :: nat
  error_data :: "ChatResponse option"

datatype request_error =
    AxiosError "error_response option"  \<comment> \<open>\<open>axios.isAxiosError(error)\<close>, with \<open>error.response\<close>\<close>
  | OtherError

datatype post_result = Resolved ChatResponse | Rejected request_error

record ApiService =
  axios_post :: "ChatRequest \<Rightarrow> post_result"

text \<open>
  \<^verbatim>\<open>
  async sendChatMessage(message: ChatMessage): Promise<ChatResponse> {
    try {
      const response = await this.axiosInstance.post('/api/chat', message);
      return response.data;
    } catch (error) {
      if (axios.isAxiosError(error)) {
        if (error.response?.data) {
          return error.response.data;
        }
      }
      throw new Error('Failed to send chat message');
    }
  }
  \<close>
  The result is \<^term>\<open>Inr\<close> of the returned value, or \<^term>\<open>Inl\<close> of the message of the
  error thrown.
\<close>

definition sendChatMessage :: "ApiService \<Rightarrow> ChatRequest \<Rightarrow> string + ChatResponse" where
  "sendChatMessage api request =
     (case axios_post api request of
        Resolved body \<Rightarrow> Inr body
      | Rejected error \<Rightarrow>
          (case error of
             AxiosError response \<Rightarrow>
               (case response of
                  Some r \<Rightarrow>
                    (case error_data r of
                       Some body \<Rightarrow> Inr body
                     | None \<Rightarrow> Inl ''Failed to send chat message'')
                | None \<Rightarrow> Inl ''Failed to send chat message'')
           | OtherError \<Rightarrow> Inl ''Failed to send chat message''))"

section \<open>The chat page (frontend, \<open>app/page.tsx\<close>)\<close>

text \<open>
  \<^verbatim>\<open>
  interface ChatMessage {
    id: string; query: string; answer: string; sources: string[]; links: string[];
    confidence: number; timestamp: string; isLoading?: boolean;
  }
  \<close>
  The field \<open>id\<close> is \<open>msg_id\<close>; where a function below has a parameter \<open>query\<close>, the
  parameter is \<open>q\<close>.  The state of the component \<open>Home\<close> is the record
  \<open>page_state\<close>, with the state variables \<open>messages\<close>, \<open>isLoading\<close>, \<open>sessionId\<close> and
  \<open>apiAvailable\<close>.
\<close>

record ChatMessage =
  msg_id :: string
  query :: string
  answer :: string
  sources :: "string list"
  links :: "string list"
  confidence :: float64
  timestamp :: string
  isLoading :: "bool option"

record page_state =
  messages :: "ChatMessage list"
  st_isLoading :: bool
  sessionId :: string
  apiAvailable :: bool

text \<open>
  The handler reads the clock: \<open>Date.now().toString()\<close> for the identifiers and
  \<open>new Date().toISOString()\<close> for the timestamps, once when the message is sent and once
  when the request has settled.  The four readings are inputs of the model.
\<close>

record clock =
  id_at_send :: string
  iso_at_send :: string
  id_at_settle :: string
  iso_at_settle :: string

text \<open>
  \<^verbatim>\<open>
  const handleSendMessage = async (query: string) => {
    if (!query.trim() || isLoading) return;

    // Add loading message
    const loadingMessageId = Date.now().toString();
    const loadingMessage: ChatMessage = {
      id: loadingMessageId, query, answer: '', sources: [], links: [],
      confidence: 0, timestamp: new Date().toISOString(), isLoading: true,
    };

    setMessages((prev) => [...prev, loadingMessage]);
    setIsLoading(true);

    try {
      const response: ChatResponse = await apiService.sendChatMessage({
        query, session_id: sessionId,
      });

      // Remove loading message and add real response
      setMessages((prev) => {
        const filtered = prev.filter((msg) => msg.id !== loadingMessageId);

        if (response.status === 'success' && response.data) {
          const newMessage: ChatMessage = {
            id: Date.now().toString(),
            query: response.data.query, answer: response.data.answer,
            sources: response.data.sources, links: response.data.links,
            confidence: response.data.confidence, timestamp: response.data.timestamp,
          };
          return [...filtered, newMessage];
        } else {
          // Error response
          const errorMessage: ChatMessage = {
            id: Date.now().toString(), query,
            answer: response.message || 'Sorry, I encountered an error processing your request. Please try again.',
            sources: [], links: [], confidence: 0, timestamp: new Date().toISOString(),
          };
          return [...filtered, errorMessage];
        }
      });
    } catch (error) {
      // Remove loading message and add error message
      setMessages((prev) => {
        const filtered = prev.filter((msg) => msg.id !== loadingMessageId);
        const errorMessage: ChatMessage = {
          id: Date.now().toString(), query,
          answer: 'Sorry, I couldn\'t connect to the RAMate API. Please check if the backend server is running and try again.',
          sources: [], links: [], confidence: 0, timestamp: new Date().toISOString(),
        };
        return [...filtered, errorMessage];
      });

      setApiAvailable(false);
    } finally {
      setIsLoading(false);
    }
  };
  \<close>
  The state updates are applied in program order: \<open>prev\<close> in the second update is the
  list the first update produced.
\<close>

definition loadingMessage :: "clock \<Rightarrow> string \<Rightarrow> ChatMessage" where
  "loadingMessage clk q =
     \<lparr>msg_id = id_at_send clk, query = q, answer = [], sources = [], links = [],
      confidence = Finite 0, timestamp = iso_at_send clk, isLoading = Some True\<rparr>"

definition newMessage :: "clock \<Rightarrow> response_data \<Rightarrow> ChatMessage" where
  "newMessage clk d =
     \<lparr>msg_id = id_at_settle clk, query = d_query d, answer = d_answer d,
      sources = d_sources d, links = d_links d, confidence = d_confidence d,
      timestamp = d_timestamp d, isLoading = None\<rparr>"

definition js_or_default :: "string option \<Rightarrow> string \<Rightarrow> string" where
  \<comment> \<open>\<open>m || dflt\<close> for an optional string: \<open>undefined\<close> and \<open>''\<close> are falsy\<close>
  "js_or_default m dflt = (case m of None \<Rightarrow> dflt | Some t \<Rightarrow> if t = [] then dflt else t)"

definition errorMessage :: "clock \<Rightarrow> string \<Rightarrow> string \<Rightarrow> ChatMessage" where
  "errorMessage clk q text =
     \<lparr>msg_id = id_at_settle clk, query = q, answer = text, sources = [], links = [],
      confidence = Finite 0, timestamp = iso_at_settle clk, isLoading = None\<rparr>"

definition handleSendMessage :: "ApiService \<Rightarrow> clock \<Rightarrow> page_state \<Rightarrow> string \<Rightarrow> page_state" where
  "handleSendMessage apiService clk st q =
     (if js_trim q = [] \<or> st_isLoading st then st
      else
        (let loadingMessageId = id_at_send clk;
             st1 = st\<lparr>messages := messages st @ [loadingMessage clk q], st_isLoading := True\<rparr>;
             filtered = filter (\<lambda>msg. msg_id msg \<noteq> loadingMessageId) (messages st1);
             st2 =
               (case sendChatMessage apiService \<lparr>req_query = q, session_id = Some (sessionId st)\<rparr> of
                  Inr response \<Rightarrow>
                    (let failed = st1\<lparr>messages := filtered @
                           [errorMessage clk q (js_or_default (message response)
                              ''Sorry, I encountered an error processing your request. Please try again.'')]\<rparr>
                     in if status response = Success
                        then (case data response of
                                Some d \<Rightarrow> st1\<lparr>messages := filtered @ [newMessage clk d]\<rparr>
                              | None \<Rightarrow> failed)
                        else failed)
                | Inl error \<Rightarrow>
                    st1\<lparr>messages := filtered @
                          [errorMessage clk q
                             ''Sorry, I couldn't connect to the RAMate API. Please check if the backend server is running and try again.''],
                        apiAvailable := False\<rparr>)
         in st2\<lparr>st_isLoading := False\<rparr>))"

section \<open>The chat input (frontend, \<open>components/ChatInput.tsx\<close>)\<close>

text \<open>
  The component has the state variable \<open>message\<close> and the properties \<open>isLoading\<close> and
  \<open>disabled\<close> (both \<open>false\<close> when the parent leaves them out).
  \<^verbatim>\<open>
  const handleSubmit = (e: React.FormEvent) => {
    e.preventDefault();

    const trimmedMessage = message.trim();
    if (!trimmedMessage || isLoading || disabled) return;

    onSendMessage(trimmedMessage);
    setMessage('');
  };
  \<close>
  The model returns the argument of the call of \<open>onSendMessage\<close>, if the handler makes
  one, and the component afterwards.  The counter \<open>{message.length}/1000\<close> that the
  component renders under the input is output only: no code reads it.
\<close>

record chat_input =
  input_message :: string
  input_isLoading :: bool
  input_disabled :: bool

definition handleSubmit :: "chat_input \<Rightarrow> string option \<times> chat_input" where
  "handleSubmit c =
     (let trimmedMessage = js_trim (input_message c)
      in if trimmedMessage = [] \<or> input_isLoading c \<or> input_disabled c then (None, c)
         else (Some trimmedMessage, c\<lparr>input_message := []\<rparr>))"

section \<open>Sample inputs\<close>

text \<open>Concrete inputs at which the definitions above are evaluated further down.\<close>

definition trimmed_sentences :: "string list" where
  "trimmed_sentences = [''Stay calm.'', ''Evacuate the building now.'']"

definition drill_sentences :: "string list" where
  "drill_sentences = [''Stay calm.'', ''Leave now.'', ''Use stairs.'', ''Meet outside.'']"

definition long_query :: string where
  "long_query = replicate 1001 (CHR ''a'')"

definition long_message :: string where
  "long_message = '' '' @ replicate 1500 (CHR ''x'') @ '' ''"

definition offline_api :: ApiService where
  "offline_api = \<lparr>axios_post = (\<lambda>request. Rejected (AxiosError None))\<rparr>"

definition noon :: clock where
  "noon = \<lparr>id_at_send = ''1754553238959'', iso_at_send = ''2025-08-07T07:53:58.959Z'',
           id_at_settle = ''1754553245123'', iso_at_settle = ''2025-08-07T07:54:05.123Z''\<rparr>"

definition fresh_page :: page_state where
  "fresh_page = \<lparr>messages = [], st_isLoading = False, sessionId = ''session_1754553238959_4in09ljf2'',
                 apiAvailable = True\<rparr>"


definition rejecting_api :: ApiService where
  "rejecting_api =
     \<lparr>axios_post = (\<lambda>request. Rejected (AxiosError (Some
        \<lparr>http_status = 400,
         error_data = Some \<lparr>status = Error, data = None, message = Some ''Query cannot be empty'',
                            resp_timestamp = ''2024-01-15T14:30:45Z''\<rparr>\<rparr>)))\<rparr>"

definition sample_engine :: "unit rag_engine" where
  "sample_engine =
     \<lparr>calculate_source_relevance = (\<lambda>query sources. Finite (7 / 8)),
      calculate_response_completeness = (\<lambda>response. Finite (1 / 2)),
      calculate_consistency = (\<lambda>response sources. Finite (3 / 4)),
      calculate_complexity_match = (\<lambda>query response. Finite 1)\<rparr>"


section \<open>Invariants of the chunking loop\<close>

text \<open>
  \<open>within_size\<close> is what holds of every chunk already appended, for the set \<open>S\<close> of
  sentences of the run; \<open>pending_ok\<close> is what holds of \<open>current_chunk\<close> between two
  iterations.
\<close>

definition within_size :: "string set \<Rightarrow> int \<Rightarrow> string \<Rightarrow> bool" where
  "within_size S chunk_size c \<longleftrightarrow>
     int (length c) \<le> chunk_size \<or> (\<exists>s\<in>S. chunk_size < int (length s) \<and> c = py_strip s)"

definition pending_ok :: "string set \<Rightarrow> int \<Rightarrow> string \<Rightarrow> bool" where
  "pending_ok S chunk_size cur \<longleftrightarrow>
     cur = [] \<or> int (length cur) \<le> chunk_size \<or> (\<exists>s\<in>S. chunk_size \<le> int (length s) \<and> cur = s @ '' '')"

text \<open>
  \<open>join_sentences\<close> is the value of \<open>current_chunk\<close> after the loop has put the
  sentences of a group into it, each followed by a blank.
\<close>

definition join_sentences :: "string list \<Rightarrow> string" where
  "join_sentences g = concat (map (\<lambda>s. s @ '' '') g)"


section \<open>Properties of the text functions\<close>

lemma py_strip_length_le: "length (py_strip s) \<le> length s"
proof -
  have "length (py_strip s) \<le> length (dropWhile py_isspace s)"
    unfolding py_strip_def using length_dropWhile_le[of py_isspace "rev (dropWhile py_isspace s)"] by simp
  also have "\<dots> \<le> length s"
    by (rule length_dropWhile_le)
  finally show ?thesis .
qed

lemma py_isspace_space: "py_isspace (CHR '' '')"
  by (simp add: py_isspace_def)

lemma py_strip_append_space: "py_strip (s @ '' '') = py_strip s"
proof (cases "\<forall>c\<in>set s. py_isspace c")
  case True
  then have "dropWhile py_isspace (s @ '' '') = dropWhile py_isspace '' ''"
    by (intro dropWhile_append2) simp
  moreover have "dropWhile py_isspace s = []"
    using True by (meson dropWhile_eq_Nil_conv)
  ultimately show ?thesis
    by (simp add: py_strip_def py_isspace_space del: dropWhile_eq_Nil_conv)
next
  case False
  then have "dropWhile py_isspace (s @ '' '') = dropWhile py_isspace s @ '' ''"
    by (metis dropWhile_append1)
  then show ?thesis by (simp add: py_strip_def py_isspace_space)
qed

section \<open>Properties of binary64 rounding\<close>

lemma floor_log2_lower_ge1:
  assumes "1 \<le> x"
  shows "2 powi (floor_log2 x) \<le> x"
proof -
  have n: "0 < \<lfloor>x\<rfloor>" using assms by linarith
  have b: "1 \<le> bitlen \<lfloor>x\<rfloor>" using n by (simp add: bitlen_alt_def)
  have "(2::int) ^ nat (bitlen \<lfloor>x\<rfloor> - 1) \<le> \<lfloor>x\<rfloor>"
    using bitlen_bounds [OF n] by simp
  then have "(of_int ((2::int) ^ nat (bitlen \<lfloor>x\<rfloor> - 1)) :: rat) \<le> of_int \<lfloor>x\<rfloor>"
    by (simp only: of_int_le_iff)
  also have "\<dots> \<le> x" by simp
  finally have "(2::rat) ^ nat (bitlen \<lfloor>x\<rfloor> - 1) \<le> x" by simp
  moreover have "(2::rat) powi (bitlen \<lfloor>x\<rfloor> - 1) = 2 ^ nat (bitlen \<lfloor>x\<rfloor> - 1)"
    using b by (simp add: power_int_def)
  ultimately show ?thesis using assms by (simp add: floor_log2_def)
qed

lemma floor_log2_upper_ge1:
  assumes "1 \<le> x"
  shows "x < 2 powi (floor_log2 x + 1)"
proof -
  have n: "0 < \<lfloor>x\<rfloor>" using assms by linarith
  have b: "1 \<le> bitlen \<lfloor>x\<rfloor>" using n by (simp add: bitlen_alt_def)
  have "\<lfloor>x\<rfloor> < (2::int) ^ nat (bitlen \<lfloor>x\<rfloor>)"
    using bitlen_bounds [OF n] by simp
  then have "\<lfloor>x\<rfloor> + 1 \<le> (2::int) ^ nat (bitlen \<lfloor>x\<rfloor>)" by simp
  then have "(of_int (\<lfloor>x\<rfloor> + 1) :: rat) \<le> of_int ((2::int) ^ nat (bitlen \<lfloor>x\<rfloor>))"
    by (simp only: of_int_le_iff)
  moreover have "x < of_int (\<lfloor>x\<rfloor> + 1)" by linarith
  ultimately have "x < (2::rat) ^ nat (bitlen \<lfloor>x\<rfloor>)" by simp
  moreover have "(2::rat) powi (bitlen \<lfloor>x\<rfloor>) = 2 ^ nat (bitlen \<lfloor>x\<rfloor>)"
    using b by (simp add: power_int_def)
  ultimately show ?thesis using assms by (simp add: floor_log2_def)
qed

lemma floor_log2_lt1:
  assumes "0 < x" and "x < 1"
  shows "2 powi (floor_log2 x) \<le> x" and "x < 2 powi (floor_log2 x + 1)"
proof -
  define m where "m = \<lceil>1 / x\<rceil> - 1"
  define b where "b = bitlen m"
  have y: "1 < 1 / x" using assms by simp
  then have "2 \<le> \<lceil>1 / x\<rceil>" by linarith
  then have m: "0 < m" by (simp add: m_def)
  have lo: "of_int m < 1 / x" unfolding m_def by linarith
  have hi: "1 / x \<le> of_int m + 1" unfolding m_def by linarith
  have b: "1 \<le> b" using m by (simp add: b_def bitlen_alt_def)
  have bb: "(2::int) ^ nat (b - 1) \<le> m" "m < (2::int) ^ nat b"
    using bitlen_bounds [OF m] by (simp_all add: b_def)
  have f: "floor_log2 x = - b"
    using assms by (simp add: floor_log2_def b_def m_def)
  have p1: "(2::rat) powi (- b) = 1 / 2 ^ nat b"
    using b by (simp add: power_int_def field_simps)
  have p2: "(2::rat) powi (1 - b) = 1 / 2 ^ nat (b - 1)"
    using b by (cases "b = 1") (simp_all add: power_int_def field_simps)
  have "m + 1 \<le> (2::int) ^ nat b" using bb(2) by simp
  then have "(of_int (m + 1) :: rat) \<le> of_int ((2::int) ^ nat b)"
    by (simp only: of_int_le_iff)
  then have "1 / x \<le> (2::rat) ^ nat b" using hi by simp
  then have "1 \<le> (2::rat) ^ nat b * x" using assms(1) by (simp add: field_simps)
  then have "1 / (2::rat) ^ nat b \<le> x" by (simp add: field_simps)
  then show "2 powi (floor_log2 x) \<le> x" by (simp add: f p1)
  have "(2::rat) ^ nat (b - 1) \<le> of_int m"
    using bb(1) by simp
  then have "(2::rat) ^ nat (b - 1) < 1 / x" using lo by (rule order_le_less_trans)
  then have "(2::rat) ^ nat (b - 1) * x < 1" using assms(1) by (simp add: field_simps)
  then have "x < 1 / (2::rat) ^ nat (b - 1)" by (simp add: field_simps)
  then show "x < 2 powi (floor_log2 x + 1)" by (simp add: f p2)
qed

lemma floor_log2_bounds:
  assumes "0 < x"
  shows "2 powi (floor_log2 x) \<le> x" and "x < 2 powi (floor_log2 x + 1)"
  using assms floor_log2_lower_ge1 floor_log2_upper_ge1 floor_log2_lt1
  by (cases "1 \<le> x"; simp)+

lemma round_half_even_error: "\<bar>of_int (round_half_even y) - y\<bar> \<le> 1 / 2"
proof -
  have "of_int \<lfloor>y\<rfloor> \<le> y" "y < of_int \<lfloor>y\<rfloor> + 1" by linarith+
  then show ?thesis
    by (auto simp: round_half_even_def Let_def abs_le_iff)
qed

lemma round_half_even_nonneg: "0 \<le> y \<Longrightarrow> 0 \<le> round_half_even y"
  by (auto simp: round_half_even_def Let_def)

lemma quantum_pos: "0 < quantum x"
  by (simp add: quantum_def)

lemma quantum_le:
  assumes "0 < x"
  shows "quantum x \<le> x / 2 ^ 52 \<or> quantum x = 1 / 2 ^ 1074"
proof (cases "- 1074 \<le> floor_log2 x - 52")
  case True
  have ax: "\<bar>x\<bar> = x" using assms by simp
  have m: "max (floor_log2 x - 52) (- 1074) = floor_log2 x - 52"
    using True by (rule max_absorb1)
  have "quantum x = 2 powi (floor_log2 x - 52)"
    by (simp only: quantum_def ax m)
  also have "\<dots> = 2 powi (floor_log2 x) / 2 powi 52"
    by (rule power_int_diff) simp
  also have "\<dots> = 2 powi (floor_log2 x) / 2 ^ 52"
    by simp
  also have "\<dots> \<le> x / 2 ^ 52"
    using floor_log2_bounds(1) [OF assms] by (rule divide_right_mono) simp
  finally show ?thesis by (rule disjI1)
next
  case False
  have ax: "\<bar>x\<bar> = x" using assms by simp
  have m: "max (floor_log2 x - 52) (- 1074) = - 1074"
    using False by (intro max_absorb2) simp
  have "quantum x = 2 powi (- 1074)"
    by (simp only: quantum_def ax m)
  also have "\<dots> = 1 / 2 ^ 1074"
    by (simp only: power_int_minus power_int_numeral inverse_eq_divide)
  finally show ?thesis by (rule disjI2)
qed

lemma round_to_binary64_nonneg:
  assumes "0 \<le> x"
  shows "0 \<le> round_to_binary64 x"
proof (cases "x = 0")
  case True
  then show ?thesis by (simp add: round_to_binary64_def)
next
  case False
  have "0 \<le> x / quantum x" using assms quantum_pos [of x] by simp
  then have "0 \<le> round_half_even (x / quantum x)" by (rule round_half_even_nonneg)
  then show ?thesis
    using False quantum_pos [of x] by (simp add: round_to_binary64_def)
qed

lemma round_to_binary64_error:
  assumes "0 \<le> x"
  shows "\<bar>round_to_binary64 x - x\<bar> \<le> x / 2 ^ 53 + 1 / 2 ^ 1075"
proof (cases "x = 0")
  case True
  then show ?thesis by (simp add: round_to_binary64_def)
next
  case False
  then have pos: "0 < x" using assms by simp
  define q where "q = quantum x"
  define n where "n = round_half_even (x / q)"
  have q: "0 < q" by (simp add: q_def quantum_pos)
  have r: "round_to_binary64 x = of_int n * q"
    using False by (simp add: round_to_binary64_def n_def q_def)
  have "\<bar>of_int n - x / q\<bar> \<le> 1 / 2"
    unfolding n_def by (rule round_half_even_error)
  then have "\<bar>of_int n - x / q\<bar> * q \<le> 1 / 2 * q"
    using q by (simp only: mult_le_cancel_right_pos)
  moreover have "\<bar>of_int n - x / q\<bar> * q = \<bar>of_int n * q - x\<bar>"
  proof -
    have "\<bar>of_int n - x / q\<bar> * q = \<bar>(of_int n - x / q) * q\<bar>"
      using q by (simp add: abs_mult)
    also have "(of_int n - x / q) * q = of_int n * q - x"
      using q by (simp add: field_simps)
    finally show ?thesis .
  qed
  ultimately have e: "\<bar>round_to_binary64 x - x\<bar> \<le> q / 2"
    by (simp add: r)
  have "q / 2 \<le> x / 2 ^ 53 + 1 / 2 ^ 1075"
    using quantum_le [OF pos] pos unfolding q_def [symmetric] by auto
  with e show ?thesis by linarith
qed

lemma fl_near:
  assumes "0 \<le> x" and "x \<le> 2"
  shows "\<exists>r. fl x = Finite r \<and> 0 \<le> r \<and> \<bar>r - x\<bar> \<le> 1 / 10 ^ 15"
proof -
  define r where "r = round_to_binary64 x"
  have n: "0 \<le> r" unfolding r_def using assms(1) by (rule round_to_binary64_nonneg)
  have "\<bar>r - x\<bar> \<le> x / 2 ^ 53 + 1 / 2 ^ 1075"
    unfolding r_def using assms(1) by (rule round_to_binary64_error)
  moreover have "x / 2 ^ 53 \<le> 2 / 2 ^ 53"
    using assms(2) by (rule divide_right_mono) simp
  moreover have "(2::rat) / 2 ^ 53 + 1 / 2 ^ 1075 \<le> 1 / 10 ^ 15" by simp
  ultimately have u: "\<bar>r - x\<bar> \<le> 1 / 10 ^ 15" by linarith
  have "(1::rat) / 10 ^ 15 \<le> 1" by simp
  with u assms(2) have "r \<le> 3" by linarith
  moreover have "3 \<le> max_binary64" by (simp add: max_binary64_def)
  ultimately have "\<not> max_binary64 < r" "\<not> r < - max_binary64" using n by linarith+
  then have "fl x = Finite r" by (simp add: fl_def r_def [symmetric])
  with n u show ?thesis by simp
qed

lemma floor_log2_one: "floor_log2 1 = 0"
  by (simp add: floor_log2_def bitlen_alt_def)

lemma round_half_even_of_int: "round_half_even (of_int n) = n"
  by (simp add: round_half_even_def)

lemma round_to_binary64_one: "round_to_binary64 1 = 1"
proof -
  have q: "quantum 1 = 1 / 2 ^ 52"
    by (simp add: quantum_def floor_log2_one power_int_minus inverse_eq_divide)
  have "round_half_even (1 / (1 / 2 ^ 52)) = round_half_even (of_int (2 ^ 52))"
    by simp
  also have "\<dots> = 2 ^ 52" by (rule round_half_even_of_int)
  finally show ?thesis by (simp add: round_to_binary64_def q)
qed

lemma fl_one: "fl 1 = Finite 1"
proof -
  have "(1::rat) \<le> max_binary64" by (simp add: max_binary64_def)
  then show ?thesis by (simp add: fl_def round_to_binary64_one)
qed

text \<open>
  The rounding function at some well-known points: the binary64 value of \<open>0.1\<close>, a tie
  that goes to the even neighbour, and overflow.
\<close>

lemma floor_log2_eqI:
  assumes "2 powi k \<le> x" and "x < 2 powi (k + 1)"
  shows "floor_log2 x = k"
proof -
  have "(0::rat) < 2 powi k" by simp
  then have pos: "0 < x" using assms(1) by (rule less_le_trans)
  have a: "2 powi (floor_log2 x) \<le> x" and b: "x < 2 powi (floor_log2 x + 1)"
    using floor_log2_bounds [OF pos] by simp_all
  have "\<not> k + 1 \<le> floor_log2 x"
    using power_int_increasing [of "k + 1" "floor_log2 x" "2::rat"] a assms(2) by auto
  moreover have "\<not> floor_log2 x + 1 \<le> k"
    using power_int_increasing [of "floor_log2 x + 1" k "2::rat"] b assms(1) by auto
  ultimately show ?thesis by simp
qed

lemma round_half_even_eqI:
  assumes "of_int n - 1 / 2 < y" and "y < of_int n + 1 / 2"
  shows "round_half_even y = n"
proof -
  have "\<bar>of_int (round_half_even y) - y\<bar> \<le> 1 / 2" by (rule round_half_even_error)
  then have "(of_int (round_half_even y) :: rat) < of_int n + 1"
    and "(of_int n :: rat) - 1 < of_int (round_half_even y)"
    using assms by linarith+
  then have "(of_int (round_half_even y) :: rat) < of_int (n + 1)"
    and "(of_int (n - 1) :: rat) < of_int (round_half_even y)"
    by simp_all
  then have "round_half_even y < n + 1" and "n - 1 < round_half_even y"
    by (simp_all only: of_int_less_iff)
  then show ?thesis by simp
qed

lemma round_to_binary64_eqI:
  assumes "2 powi k \<le> \<bar>x\<bar>" and "\<bar>x\<bar> < 2 powi (k + 1)" and "- 1022 \<le> k"
    and "of_int n - 1 / 2 < x / 2 powi (k - 52)" and "x / 2 powi (k - 52) < of_int n + 1 / 2"
  shows "round_to_binary64 x = of_int n * 2 powi (k - 52)"
proof -
  have "(0::rat) < 2 powi k" by simp
  then have "0 < \<bar>x\<bar>" using assms(1) by (rule less_le_trans)
  then have nz: "x \<noteq> 0" by simp
  have k: "floor_log2 \<bar>x\<bar> = k" using assms(1,2) by (rule floor_log2_eqI)
  have "max (k - 52) (- 1074) = k - 52" using assms(3) by simp
  then have q: "quantum x = 2 powi (k - 52)" by (simp only: quantum_def k)
  have "round_half_even (x / 2 powi (k - 52)) = n" using assms(4,5) by (rule round_half_even_eqI)
  then show ?thesis using nz by (simp add: round_to_binary64_def q)
qed

lemma fl_tenth: "fl (1 / 10) = Finite (3602879701896397 / 36028797018963968)"
proof -
  have "round_to_binary64 (1 / 10) = of_int 7205759403792794 * 2 powi (- 4 - 52)"
    by (rule round_to_binary64_eqI) (simp_all add: power_int_minus)
  then have "round_to_binary64 (1 / 10) = 3602879701896397 / 36028797018963968"
    by (simp add: power_int_minus)
  then show ?thesis by (simp add: fl_def max_binary64_def)
qed

lemma fl_tie_to_even: "fl (1 + 1 / 2 ^ 53) = Finite 1"
proof -
  define x :: rat where "x = 1 + 1 / 2 ^ 53"
  define q :: rat where "q = 1 / 2 ^ 52"
  have nz: "x \<noteq> 0" by (simp add: x_def)
  have "floor_log2 \<bar>x\<bar> = 0"
    by (rule floor_log2_eqI) (simp_all add: x_def)
  then have qx: "quantum x = q"
    by (simp add: quantum_def q_def power_int_minus inverse_eq_divide)
  have v: "x / q = 2 ^ 52 + 1 / 2" by (simp add: x_def q_def)
  have f: "\<lfloor>x / q\<rfloor> = 2 ^ 52" unfolding v by (rule floor_unique) simp_all
  have "round_half_even (x / q) = 2 ^ 52"
    unfolding round_half_even_def Let_def f unfolding v by simp
  then have "round_to_binary64 x = of_int (2 ^ 52) * q"
    using nz by (simp only: round_to_binary64_def qx if_False)
  then have "round_to_binary64 x = 1" by (simp add: q_def)
  then have "fl x = Finite 1" by (simp add: fl_def max_binary64_def)
  then show ?thesis by (simp only: x_def)
qed

lemma fl_overflow: "fl (2 ^ 1024) = PosInf"
proof -
  have "round_to_binary64 (2 ^ 1024) = of_int (2 ^ 52) * 2 powi (1024 - 52)"
    by (rule round_to_binary64_eqI) simp_all
  then have "round_to_binary64 (2 ^ 1024) = 2 ^ 1024"
    by simp
  then show ?thesis by (simp add: fl_def max_binary64_def)
qed


section \<open>Properties of confidence scoring\<close>

lemma weighted_term_near:
  assumes "0 \<le> a" and "a \<le> 1" and "0 \<le> w" and "w \<le> 1"
  shows "\<exists>p. float_mul (Finite a) (fl w) = Finite p \<and> 0 \<le> p \<and> \<bar>p - a * w\<bar> \<le> 2 / 10 ^ 15"
proof -
  obtain w' where w': "fl w = Finite w'" "0 \<le> w'" "\<bar>w' - w\<bar> \<le> 1 / 10 ^ 15"
    using fl_near [of w] assms(3,4) by auto
  have "a * w' \<le> 1 * w'" using assms(2) w'(2) by (rule mult_right_mono)
  then have le: "a * w' \<le> w'" by simp
  have ge: "0 \<le> a * w'" using assms(1) w'(2) by simp
  have "(1::rat) / 10 ^ 15 \<le> 1" by simp
  with le w'(3) assms(4) have "a * w' \<le> 2" by linarith
  then obtain p where p: "fl (a * w') = Finite p" "0 \<le> p" "\<bar>p - a * w'\<bar> \<le> 1 / 10 ^ 15"
    using fl_near [of "a * w'"] ge by auto
  have "\<bar>a * w' - a * w\<bar> = a * \<bar>w' - w\<bar>"
    using assms(1) by (simp add: abs_mult flip: right_diff_distrib)
  also have "\<dots> \<le> 1 * \<bar>w' - w\<bar>"
    using assms(2) by (intro mult_right_mono) simp_all
  finally have "\<bar>a * w' - a * w\<bar> \<le> 1 / 10 ^ 15" using w'(3) by simp
  with p(3) have "\<bar>p - a * w\<bar> \<le> 2 / 10 ^ 15" by linarith
  then show ?thesis using p w'(1) by simp
qed

lemma sum_step_near:
  assumes "0 \<le> s" and "0 \<le> p" and "s + p \<le> 2"
  shows "\<exists>t. float_add (Finite s) (Finite p) = Finite t \<and> 0 \<le> t \<and> \<bar>t - (s + p)\<bar> \<le> 1 / 10 ^ 15"
proof -
  have "0 \<le> s + p" using assms by linarith
  then show ?thesis
    using fl_near [of "s + p"] assms(3) by simp
qed

lemma round_half_even_le:
  assumes "y < of_int n + 1 / 2"
  shows "round_half_even y \<le> n"
proof -
  have "\<bar>of_int (round_half_even y) - y\<bar> \<le> 1 / 2" by (rule round_half_even_error)
  then have "(of_int (round_half_even y) :: rat) < of_int n + 1" using assms by linarith
  then have "(of_int (round_half_even y) :: rat) < of_int (n + 1)" by simp
  then have "round_half_even y < n + 1" by (simp only: of_int_less_iff)
  then show ?thesis by simp
qed

lemma py_round_3_near:
  assumes "0 \<le> s" and "s \<le> 1 + 1 / 10 ^ 4"
  shows "\<exists>t v. 0 \<le> t \<and> t \<le> 1000 \<and> \<bar>of_int t / 1000 - s\<bar> \<le> 1 / 2000
           \<and> py_round (Finite s) 3 = fl (of_int t / 1000)
           \<and> py_round (Finite s) 3 = Finite v \<and> 0 \<le> v \<and> v \<le> 1"
proof -
  define t where "t = round_half_even (s * 10 ^ 3)"
  have t0: "0 \<le> t" unfolding t_def using assms(1) by (intro round_half_even_nonneg) simp
  have "s * 10 ^ 3 < of_int 1000 + 1 / 2" using assms(2) by simp
  then have t1: "t \<le> 1000" unfolding t_def by (rule round_half_even_le)
  have "\<bar>of_int t - s * 10 ^ 3\<bar> \<le> 1 / 2" unfolding t_def by (rule round_half_even_error)
  then have d: "\<bar>of_int t / 1000 - s\<bar> \<le> 1 / 2000" by (simp add: abs_le_iff field_simps)
  have r: "py_round (Finite s) 3 = fl (of_int t / 1000)" by (simp add: t_def)
  have "\<exists>v. fl (of_int t / 1000) = Finite v \<and> 0 \<le> v \<and> v \<le> 1"
  proof (cases "t = 1000")
    case True
    then show ?thesis by (simp add: fl_one)
  next
    case False
    then have "t \<le> 999" using t1 by simp
    then have "(of_int t :: rat) \<le> of_int 999" by (simp only: of_int_le_iff)
    then have u: "(of_int t :: rat) / 1000 \<le> 999 / 1000" by simp
    have l: "0 \<le> (of_int t :: rat) / 1000" using t0 by simp
    obtain v where v: "fl (of_int t / 1000) = Finite v" "0 \<le> v" "\<bar>v - of_int t / 1000\<bar> \<le> 1 / 10 ^ 15"
      using fl_near [of "of_int t / 1000"] l u by auto
    have "(1::rat) / 10 ^ 15 \<le> 1 / 1000" by simp
    with v(3) u have "v \<le> 1" by linarith
    then show ?thesis using v by simp
  qed
  then show ?thesis using t0 t1 d r by auto
qed

text \<open>
  C1.  The confidence that \<open>calculate_confidence\<close> returns is the weighted sum of the
  four component scores, source relevance times 0.4, response completeness times 0.3,
  factual consistency times 0.2 and query-complexity match times 0.1, added in this
  order in binary64 arithmetic and rounded to 3 decimals.  Whenever each of the four
  component scores lies in \<open>[0, 1]\<close>, the confidence is the binary64 value of a number
  \<open>t / 1000\<close> with three decimals that differs from the exact weighted sum by at most
  half a thousandth (and the rounding error of the arithmetic, which is below
  \<open>1 / 10 ^ 13\<close>), and it is a finite number in \<open>[0, 1]\<close>.
\<close>

theorem calculate_confidence_unit_interval:
  "calculate_confidence self qry rsp srcs =
     py_round
       (float_add
          (float_add
             (float_add (float_mul (calculate_source_relevance self qry srcs) (fl (4 / 10)))
                        (float_mul (calculate_response_completeness self rsp) (fl (3 / 10))))
             (float_mul (calculate_consistency self rsp srcs) (fl (2 / 10))))
          (float_mul (calculate_complexity_match self qry rsp) (fl (1 / 10))))
       3
   \<and> (\<forall>a b c d.
         calculate_source_relevance self qry srcs = Finite a \<and> 0 \<le> a \<and> a \<le> 1 \<and>
         calculate_response_completeness self rsp = Finite b \<and> 0 \<le> b \<and> b \<le> 1 \<and>
         calculate_consistency self rsp srcs = Finite c \<and> 0 \<le> c \<and> c \<le> 1 \<and>
         calculate_complexity_match self qry rsp = Finite d \<and> 0 \<le> d \<and> d \<le> 1
         \<longrightarrow> (\<exists>t v. calculate_confidence self qry rsp srcs = fl (of_int t / 1000)
                   \<and> \<bar>of_int t / 1000 - (a * (4 / 10) + b * (3 / 10) + c * (2 / 10) + d * (1 / 10))\<bar>
                       \<le> 1 / 2000 + 1 / 10 ^ 13
                   \<and> calculate_confidence self qry rsp srcs = Finite v \<and> 0 \<le> v \<and> v \<le> 1))"
proof (intro conjI allI impI)
  show "calculate_confidence self qry rsp srcs =
     py_round
       (float_add
          (float_add
             (float_add (float_mul (calculate_source_relevance self qry srcs) (fl (4 / 10)))
                        (float_mul (calculate_response_completeness self rsp) (fl (3 / 10))))
             (float_mul (calculate_consistency self rsp srcs) (fl (2 / 10))))
          (float_mul (calculate_complexity_match self qry rsp) (fl (1 / 10))))
       3"
    by (simp add: calculate_confidence_def)
next
  fix a b c d
  assume h: "calculate_source_relevance self qry srcs = Finite a \<and> 0 \<le> a \<and> a \<le> 1 \<and>
         calculate_response_completeness self rsp = Finite b \<and> 0 \<le> b \<and> b \<le> 1 \<and>
         calculate_consistency self rsp srcs = Finite c \<and> 0 \<le> c \<and> c \<le> 1 \<and>
         calculate_complexity_match self qry rsp = Finite d \<and> 0 \<le> d \<and> d \<le> 1"
  define e :: rat where "e = 1 / 10 ^ 15"
  have e: "0 \<le> e" "e \<le> 1 / 10 ^ 15" "1 / 10 ^ 15 \<le> e" "2 / 10 ^ 15 = 2 * e" "e \<le> 1 / 100"
    by (simp_all add: e_def)
  have ab: "0 \<le> a" "a \<le> 1" "0 \<le> b" "b \<le> 1" "0 \<le> c" "c \<le> 1" "0 \<le> d" "d \<le> 1"
    using h by simp_all
  have wa: "a * (4 / 10) \<le> 4 / 10" "b * (3 / 10) \<le> 3 / 10" "c * (2 / 10) \<le> 2 / 10" "d * (1 / 10) \<le> 1 / 10"
    using ab by simp_all
  obtain p1 where p1: "float_mul (Finite a) (fl (4 / 10)) = Finite p1" "0 \<le> p1" "\<bar>p1 - a * (4 / 10)\<bar> \<le> 2 * e"
    using weighted_term_near [of a "4 / 10"] ab unfolding e(4) [symmetric] by auto
  obtain p2 where p2: "float_mul (Finite b) (fl (3 / 10)) = Finite p2" "0 \<le> p2" "\<bar>p2 - b * (3 / 10)\<bar> \<le> 2 * e"
    using weighted_term_near [of b "3 / 10"] ab unfolding e(4) [symmetric] by auto
  obtain p3 where p3: "float_mul (Finite c) (fl (2 / 10)) = Finite p3" "0 \<le> p3" "\<bar>p3 - c * (2 / 10)\<bar> \<le> 2 * e"
    using weighted_term_near [of c "2 / 10"] ab unfolding e(4) [symmetric] by auto
  obtain p4 where p4: "float_mul (Finite d) (fl (1 / 10)) = Finite p4" "0 \<le> p4" "\<bar>p4 - d * (1 / 10)\<bar> \<le> 2 * e"
    using weighted_term_near [of d "1 / 10"] ab unfolding e(4) [symmetric] by auto
  have "p1 + p2 \<le> 2" using p1(3) p2(3) wa e(5) by linarith
  then obtain s1 where s1: "float_add (Finite p1) (Finite p2) = Finite s1" "0 \<le> s1" "\<bar>s1 - (p1 + p2)\<bar> \<le> e"
    using sum_step_near [OF p1(2) p2(2)] e(3) by auto
  have "s1 + p3 \<le> 2" using s1(3) p1(3) p2(3) p3(3) wa e(5) by linarith
  then obtain s2 where s2: "float_add (Finite s1) (Finite p3) = Finite s2" "0 \<le> s2" "\<bar>s2 - (s1 + p3)\<bar> \<le> e"
    using sum_step_near [OF s1(2) p3(2)] e(3) by auto
  have "s2 + p4 \<le> 2" using s2(3) s1(3) p1(3) p2(3) p3(3) p4(3) wa e(5) by linarith
  then obtain s3 where s3: "float_add (Finite s2) (Finite p4) = Finite s3" "0 \<le> s3" "\<bar>s3 - (s2 + p4)\<bar> \<le> e"
    using sum_step_near [OF s2(2) p4(2)] e(3) by auto
  let ?W = "a * (4 / 10) + b * (3 / 10) + c * (2 / 10) + d * (1 / 10)"
  have W: "\<bar>s3 - ?W\<bar> \<le> 11 * e"
    using s3(3) s2(3) s1(3) p1(3) p2(3) p3(3) p4(3) by linarith
  have "?W \<le> 1" using wa by linarith
  with W have "s3 \<le> 1 + 11 * e" by linarith
  moreover have "11 * e \<le> 1 / 10 ^ 4" by (simp add: e_def)
  ultimately have s3u: "s3 \<le> 1 + 1 / 10 ^ 4" by linarith
  obtain t v where tv: "\<bar>of_int t / 1000 - s3\<bar> \<le> 1 / 2000"
      "py_round (Finite s3) 3 = fl (of_int t / 1000)"
      "py_round (Finite s3) 3 = Finite v" "0 \<le> v" "v \<le> 1"
    using py_round_3_near [OF s3(2) s3u] by blast
  have cc: "calculate_confidence self qry rsp srcs = py_round (Finite s3) 3"
    using h p1(1) p2(1) p3(1) p4(1) s1(1) s2(1) s3(1)
    by (simp add: calculate_confidence_def)
  have "11 * e \<le> 1 / 10 ^ 13" by (simp add: e_def)
  with W tv(1) have w: "\<bar>of_int t / 1000 - ?W\<bar> \<le> 1 / 2000 + 1 / 10 ^ 13" by linarith
  have c1: "calculate_confidence self qry rsp srcs = fl (of_int t / 1000)"
    using cc tv(2) by (rule trans)
  have c2: "calculate_confidence self qry rsp srcs = Finite v"
    using cc tv(3) by (rule trans)
  show "\<exists>t v. calculate_confidence self qry rsp srcs = fl (of_int t / 1000)
                   \<and> \<bar>of_int t / 1000 - ?W\<bar> \<le> 1 / 2000 + 1 / 10 ^ 13
                   \<and> calculate_confidence self qry rsp srcs = Finite v \<and> 0 \<le> v \<and> v \<le> 1"
    using c1 w c2 tv(4,5) by blast
qed

theorem calculate_confidence_unit_interval_witness:
  "calculate_source_relevance sample_engine ''fire'' [] = Finite (7 / 8)
   \<and> calculate_response_completeness sample_engine ''Evacuate.'' = Finite (1 / 2)
   \<and> calculate_consistency sample_engine ''Evacuate.'' [] = Finite (3 / 4)
   \<and> calculate_complexity_match sample_engine ''fire'' ''Evacuate.'' = Finite 1
   \<and> (\<exists>t v. calculate_confidence sample_engine ''fire'' ''Evacuate.'' [] = fl (of_int t / 1000)
          \<and> \<bar>of_int t / 1000 - (7 / 8 * (4 / 10) + 1 / 2 * (3 / 10) + 3 / 4 * (2 / 10) + 1 * (1 / 10) :: rat)\<bar>
              \<le> 1 / 2000 + 1 / 10 ^ 13
          \<and> calculate_confidence sample_engine ''fire'' ''Evacuate.'' [] = Finite v \<and> 0 \<le> v \<and> v \<le> 1)"
proof -
  have h: "calculate_source_relevance sample_engine ''fire'' [] = Finite (7 / 8) \<and> (0::rat) \<le> 7 / 8 \<and> (7 / 8 :: rat) \<le> 1 \<and>
         calculate_response_completeness sample_engine ''Evacuate.'' = Finite (1 / 2) \<and> (0::rat) \<le> 1 / 2 \<and> (1 / 2 :: rat) \<le> 1 \<and>
         calculate_consistency sample_engine ''Evacuate.'' [] = Finite (3 / 4) \<and> (0::rat) \<le> 3 / 4 \<and> (3 / 4 :: rat) \<le> 1 \<and>
         calculate_complexity_match sample_engine ''fire'' ''Evacuate.'' = Finite 1 \<and> (0::rat) \<le> 1 \<and> (1::rat) \<le> 1"
    by (simp add: sample_engine_def)
  have "\<exists>t v. calculate_confidence sample_engine ''fire'' ''Evacuate.'' [] = fl (of_int t / 1000)
          \<and> \<bar>of_int t / 1000 - (7 / 8 * (4 / 10) + 1 / 2 * (3 / 10) + 3 / 4 * (2 / 10) + 1 * (1 / 10) :: rat)\<bar>
              \<le> 1 / 2000 + 1 / 10 ^ 13
          \<and> calculate_confidence sample_engine ''fire'' ''Evacuate.'' [] = Finite v \<and> 0 \<le> v \<and> v \<le> 1"
    by (rule calculate_confidence_unit_interval
          [of sample_engine "''fire''" "''Evacuate.''" "[]",
           THEN conjunct2, THEN spec, THEN spec, THEN spec, THEN spec, THEN mp, OF h])
  then show ?thesis using h by blast
qed


section \<open>Properties of chunking\<close>

lemma pending_ok_strip:
  assumes a: "pending_ok S n cur" and ne: "cur \<noteq> []"
  shows "within_size S n (py_strip cur)"
proof -
  show ?thesis
  proof (cases "int (length (py_strip cur)) \<le> n")
    case True
    then show ?thesis by (simp add: within_size_def)
  next
    case False
    have le: "length (py_strip cur) \<le> length cur" by (rule py_strip_length_le)
    with False have "\<not> int (length cur) \<le> n" by linarith
    with a ne obtain s where s: "s \<in> S" "cur = s @ '' ''"
      by (auto simp: pending_ok_def)
    have eq: "py_strip cur = py_strip s" using s by (simp add: py_strip_append_space)
    have "length (py_strip s) \<le> length s" by (rule py_strip_length_le)
    moreover have "\<not> int (length (py_strip s)) \<le> n" using False eq by simp
    ultimately have "n < int (length s)" by linarith
    with s eq show ?thesis by (auto simp: within_size_def)
  qed
qed

lemma chunk_loop_inv:
  "set ss \<subseteq> S \<Longrightarrow> pending_ok S n cur \<Longrightarrow> \<forall>c\<in>set chunks. within_size S n c \<Longrightarrow>
   chunk_loop n ss chunks cur = (chunks', cur') \<Longrightarrow>
   pending_ok S n cur' \<and> (\<forall>c\<in>set chunks'. within_size S n c)"
proof (induction ss arbitrary: chunks cur)
  case Nil
  then show ?case by simp
next
  case (Cons s ss)
  show ?case
  proof (cases "int (length cur) + int (length s) < n")
    case True
    have "pending_ok S n (cur @ s @ '' '')"
      using True by (simp add: pending_ok_def)
    moreover have "chunk_loop n ss chunks (cur @ s @ '' '') = (chunks', cur')"
      using Cons.prems(4) True by simp
    ultimately show ?thesis
      using Cons.IH[of "cur @ s @ '' ''" chunks] Cons.prems(1,3) by simp
  next
    case False
    let ?chunks = "if cur \<noteq> [] then chunks @ [py_strip cur] else chunks"
    have "pending_ok S n (s @ '' '')"
    proof (cases "n \<le> int (length s)")
      case True
      then show ?thesis using Cons.prems(1) by (auto simp: pending_ok_def)
    next
      case False
      then show ?thesis by (simp add: pending_ok_def)
    qed
    moreover have "\<forall>c\<in>set ?chunks. within_size S n c"
      using Cons.prems(2,3) pending_ok_strip by auto
    moreover have "chunk_loop n ss ?chunks (s @ '' '') = (chunks', cur')"
      using Cons.prems(4) False by simp
    ultimately show ?thesis
      using Cons.IH[of "s @ '' ''" ?chunks] Cons.prems(1) by simp
  qed
qed


lemma chunk_text_within_size:
  assumes "c \<in> set (chunk_text self text chunk_size overlap)"
  shows "within_size (set (split_into_sentences self text)) chunk_size c"
proof -
  let ?S = "set (split_into_sentences self text)"
  obtain chunks cur where run: "chunk_loop chunk_size (split_into_sentences self text) [] [] = (chunks, cur)"
    by (cases "chunk_loop chunk_size (split_into_sentences self text) [] []")
  have "pending_ok ?S chunk_size cur \<and> (\<forall>c\<in>set chunks. within_size ?S chunk_size c)"
  proof (rule chunk_loop_inv[OF _ _ _ run])
    show "?S \<subseteq> ?S" by simp
    show "pending_ok ?S chunk_size []" by (simp add: pending_ok_def)
    show "\<forall>c\<in>set []. within_size ?S chunk_size c" by simp
  qed
  moreover have "c \<in> set chunks \<or> (cur \<noteq> [] \<and> c = py_strip cur)"
    using assms run by (auto simp: chunk_text_def split: if_splits)
  ultimately show ?thesis
    using pending_ok_strip by blast
qed

text \<open>
  C2.  Every chunk that \<open>chunk_text\<close> returns is at most \<open>chunk_size\<close> characters
  long, or it is one single sentence that is longer than \<open>chunk_size\<close> and forms a chunk
  of its own: a sentence is never split.  \<open>chunk_text\<close> strips every chunk it stores, so
  the chunk is the sentence without the whitespace around it; when the splitter returns
  its sentences without whitespace around them, the chunk is the unmodified sentence.
  This holds for every text, every \<open>chunk_size\<close> (also zero and negative ones) and
  every sentence splitter.
\<close>

theorem chunk_text_size:
  assumes "c \<in> set (chunk_text self text chunk_size overlap)"
  shows "(int (length c) \<le> chunk_size \<or>
          (\<exists>s\<in>set (split_into_sentences self text). chunk_size < int (length s) \<and> c = py_strip s))
         \<and> ((\<forall>s\<in>set (split_into_sentences self text). py_strip s = s) \<longrightarrow>
              int (length c) \<le> chunk_size \<or>
              (c \<in> set (split_into_sentences self text) \<and> chunk_size < int (length c)))"
  using chunk_text_within_size [OF assms] by (auto simp: within_size_def)

theorem chunk_text_size_witness:
  "''Evacuate the building now.''
     \<in> set (chunk_text (stub_processor trimmed_sentences) ''Stay calm. Evacuate the building now.'' 12 100)
   \<and> py_strip ''Stay calm.'' = ''Stay calm.''
   \<and> py_strip ''Evacuate the building now.'' = ''Evacuate the building now.''
   \<and> ''Evacuate the building now.''
     \<in> set (split_into_sentences (stub_processor trimmed_sentences) ''Stay calm. Evacuate the building now.'')
   \<and> 12 < int (length ''Evacuate the building now.'')
   \<and> chunk_text (stub_processor trimmed_sentences) ''Stay calm. Evacuate the building now.'' 12 100
     = [''Stay calm.'', ''Evacuate the building now.'']"
proof -
  have e: "chunk_text (stub_processor trimmed_sentences) ''Stay calm. Evacuate the building now.'' 12 100
     = [''Stay calm.'', ''Evacuate the building now.'']"
    by (simp add: chunk_text_def stub_processor_def trimmed_sentences_def py_strip_def py_isspace_def)
  have m: "''Evacuate the building now.''
     \<in> set (chunk_text (stub_processor trimmed_sentences) ''Stay calm. Evacuate the building now.'' 12 100)"
    by (simp add: e)
  have t: "py_strip ''Stay calm.'' = ''Stay calm.''"
      "py_strip ''Evacuate the building now.'' = ''Evacuate the building now.''"
    by (simp_all add: py_strip_def py_isspace_def)
  then have a: "\<forall>s\<in>set (split_into_sentences (stub_processor trimmed_sentences) ''Stay calm. Evacuate the building now.'').
          py_strip s = s"
    by (simp add: stub_processor_def trimmed_sentences_def)
  have "int (length ''Evacuate the building now.'') \<le> 12 \<or>
        (''Evacuate the building now.''
           \<in> set (split_into_sentences (stub_processor trimmed_sentences) ''Stay calm. Evacuate the building now.'')
         \<and> 12 < int (length ''Evacuate the building now.''))"
    using chunk_text_size [OF m] a by blast
  then show ?thesis using m t e by simp
qed

lemma chunk_text_size_unmodified:
  assumes "\<forall>s\<in>set (split_into_sentences self text). py_strip s = s"
    and "c \<in> set (chunk_text self text chunk_size overlap)"
  shows "int (length c) \<le> chunk_size \<or>
         (c \<in> set (split_into_sentences self text) \<and> chunk_size < int (length c))"
  using assms(1) chunk_text_within_size [OF assms(2)] by (auto simp: within_size_def)

text \<open>
  C3.  The specification has every chunk after the first begin with the trailing
  sentences of the chunk before it, up to \<open>overlap\<close> characters.  \<open>chunk_text\<close> takes the
  parameter \<open>overlap\<close> and never reads it.  With \<open>chunk_size = 25\<close> and \<open>overlap = 12\<close> the
  second chunk would have to begin with ``Leave now.'', the last sentence of the first
  chunk (10 characters); the chunks share nothing.
\<close>

theorem chunk_text_no_overlap:
  "chunk_text (stub_processor drill_sentences) ''Stay calm. Leave now. Use stairs. Meet outside.'' 25 12
     = [''Stay calm. Leave now.'', ''Use stairs.'', ''Meet outside.'']"
  by (simp add: chunk_text_def stub_processor_def drill_sentences_def py_strip_def py_isspace_def)

lemma chunk_text_overlap_unused:
  "chunk_text self text chunk_size overlap = chunk_text self text chunk_size overlap'"
  by (simp add: chunk_text_def)

text \<open>
  For every input the chunks come from consecutive groups of sentences that do not
  overlap: the groups, one after the other, are the sentence list, so every sentence goes
  into exactly one chunk.
\<close>

lemma join_sentences_Nil_iff: "join_sentences g = [] \<longleftrightarrow> g = []"
  by (cases g) (simp_all add: join_sentences_def)

lemma join_sentences_snoc: "join_sentences (g @ [s]) = join_sentences g @ s @ '' ''"
  by (simp add: join_sentences_def)

lemma chunk_loop_groups:
  assumes "chunk_loop n ss (map (\<lambda>g. py_strip (join_sentences g)) gs) (join_sentences g) = (chunks', cur')"
    and "[] \<notin> set gs"
  shows "\<exists>gs' g'. chunks' = map (\<lambda>g. py_strip (join_sentences g)) gs' \<and> cur' = join_sentences g'
           \<and> concat gs' @ g' = concat gs @ g @ ss \<and> [] \<notin> set gs'"
  using assms
proof (induction ss arbitrary: gs g)
  case Nil
  then show ?case by auto
next
  case (Cons s ss)
  show ?case
  proof (cases "int (length (join_sentences g)) + int (length s) < n")
    case True
    then have "chunk_loop n ss (map (\<lambda>g. py_strip (join_sentences g)) gs) (join_sentences (g @ [s])) = (chunks', cur')"
      using Cons.prems(1) by (simp add: join_sentences_snoc)
    from Cons.IH [OF this Cons.prems(2)] show ?thesis by auto
  next
    case False
    show ?thesis
    proof (cases "g = []")
      case True
      then have "chunk_loop n ss (map (\<lambda>g. py_strip (join_sentences g)) gs) (join_sentences [s]) = (chunks', cur')"
        using Cons.prems(1) False by (simp add: join_sentences_def)
      from Cons.IH [OF this Cons.prems(2)] show ?thesis using True by auto
    next
      case ne: False
      then have "join_sentences g \<noteq> []" by (simp add: join_sentences_Nil_iff)
      then have "chunk_loop n ss (map (\<lambda>g. py_strip (join_sentences g)) (gs @ [g])) (join_sentences [s]) = (chunks', cur')"
        using Cons.prems(1) False by (simp add: join_sentences_def)
      moreover have "[] \<notin> set (gs @ [g])" using Cons.prems(2) ne by auto
      ultimately show ?thesis using Cons.IH [of "gs @ [g]" "[s]"] by auto
    qed
  qed
qed

lemma chunk_text_groups:
  "\<exists>groups. [] \<notin> set groups \<and> concat groups = split_into_sentences self text
      \<and> chunk_text self text chunk_size overlap = map (\<lambda>g. py_strip (join_sentences g)) groups"
proof -
  obtain chunks cur where run: "chunk_loop chunk_size (split_into_sentences self text) [] [] = (chunks, cur)"
    by (cases "chunk_loop chunk_size (split_into_sentences self text) [] []")
  then have "chunk_loop chunk_size (split_into_sentences self text)
               (map (\<lambda>g. py_strip (join_sentences g)) []) (join_sentences []) = (chunks, cur)"
    by (simp add: join_sentences_def)
  from chunk_loop_groups [OF this]
  obtain gs g where g: "chunks = map (\<lambda>g. py_strip (join_sentences g)) gs" "cur = join_sentences g"
      "concat gs @ g = split_into_sentences self text" "[] \<notin> set gs"
    by auto
  show ?thesis
  proof (cases "g = []")
    case True
    then have "chunk_text self text chunk_size overlap = map (\<lambda>g. py_strip (join_sentences g)) gs"
      using run g(1,2) by (simp add: chunk_text_def join_sentences_def)
    then show ?thesis using g(3,4) True by auto
  next
    case False
    then have "cur \<noteq> []" using g(2) by (simp add: join_sentences_Nil_iff)
    then have "chunk_text self text chunk_size overlap = map (\<lambda>g. py_strip (join_sentences g)) (gs @ [g])"
      using run g(1,2) by (simp add: chunk_text_def)
    moreover have "[] \<notin> set (gs @ [g])" using g(4) False by auto
    moreover have "concat (gs @ [g]) = split_into_sentences self text" using g(3) by simp
    ultimately show ?thesis by blast
  qed
qed

text \<open>
  The result of \<open>chunk_text\<close> depends on the processor only through the sentences its
  splitter returns for the text.
\<close>

lemma chunk_text_same_sentences:
  assumes "split_into_sentences self text = split_into_sentences self' text"
  shows "chunk_text self text chunk_size overlap = chunk_text self' text chunk_size overlap"
  using assms by (simp add: chunk_text_def)

text \<open>
  Runs of the loop: from the same sentences and the same values of \<open>chunks\<close> and
  \<open>current_chunk\<close>, two runs end with the same values, because at every sentence
  exactly one path through the loop body can be taken.  The function \<open>chunk_loop\<close>
  computes where the run ends.
\<close>

inductive_cases loop_run_NilE: "loop_run n [] chunks cur final"

inductive_cases loop_run_ConsE: "loop_run n (s # ss) chunks cur final"

lemma loop_run_deterministic:
  assumes "loop_run n ss chunks cur final" and "loop_run n ss chunks cur final'"
  shows "final' = final"
  using assms
proof (induction arbitrary: final' rule: loop_run.induct)
  case (loop_end n chunks cur)
  then show ?case by (auto elim: loop_run_NilE)
next
  case (loop_extend cur s n ss chunks final)
  from loop_extend.prems loop_extend.hyps(1) have "loop_run n ss chunks (cur @ s @ '' '') final'"
    by (auto elim: loop_run_ConsE)
  then show ?case by (rule loop_extend.IH)
next
  case (loop_flush cur s n ss chunks final)
  from loop_flush.prems loop_flush.hyps(1,2)
  have "loop_run n ss (chunks @ [py_strip cur]) (s @ '' '') final'"
    by (auto elim: loop_run_ConsE)
  then show ?case by (rule loop_flush.IH)
next
  case (loop_start cur s n ss chunks final)
  from loop_start.prems loop_start.hyps(1,2)
  have "loop_run n ss chunks (s @ '' '') final'"
    by (auto elim: loop_run_ConsE)
  then show ?case by (rule loop_start.IH)
qed

lemma loop_run_chunk_loop: "loop_run n ss chunks cur (chunk_loop n ss chunks cur)"
proof (induction ss arbitrary: chunks cur)
  case Nil
  show ?case by (simp add: loop_end)
next
  case (Cons s ss)
  show ?case
  proof (cases "int (length cur) + int (length s) < n")
    case True
    then show ?thesis using Cons [of chunks "cur @ s @ '' ''"] by (simp add: loop_extend)
  next
    case False
    show ?thesis
    proof (cases "cur = []")
      case True
      then show ?thesis using False Cons [of chunks "s @ '' ''"] by (simp add: loop_start)
    next
      case ne: False
      then show ?thesis using False Cons [of "chunks @ [py_strip cur]" "s @ '' ''"] by (simp add: loop_flush)
    qed
  qed
qed

lemma chunk_text_run_chunk_text:
  "chunk_text_run self text chunk_size overlap (chunk_text self text chunk_size overlap)"
proof -
  obtain chunks cur where run: "chunk_loop chunk_size (split_into_sentences self text) [] [] = (chunks, cur)"
    by (cases "chunk_loop chunk_size (split_into_sentences self text) [] []")
  have l: "loop_run chunk_size (split_into_sentences self text) [] [] (chunks, cur)"
    using loop_run_chunk_loop [of chunk_size "split_into_sentences self text" "[]" "[]"] run by simp
  have e: "chunk_text self text chunk_size overlap = (if cur \<noteq> [] then chunks @ [py_strip cur] else chunks)"
    using run by (simp add: chunk_text_def)
  show ?thesis
    by (rule chunk_text_returns [OF refl l e])
qed



text \<open>The function \<open>chunk_text\<close> is the result of every run.\<close>

lemma chunk_text_run_iff:
  "chunk_text_run self text chunk_size overlap result \<longleftrightarrow>
     result = chunk_text self text chunk_size overlap"
proof
  assume "chunk_text_run self text chunk_size overlap result"
  then obtain chunks cur where
    a: "loop_run chunk_size (split_into_sentences self text) [] [] (chunks, cur)"
       "result = (if cur \<noteq> [] then chunks @ [py_strip cur] else chunks)"
    by (auto elim: chunk_text_run.cases)
  have "loop_run chunk_size (split_into_sentences self text) [] []
          (chunk_loop chunk_size (split_into_sentences self text) [] [])"
    by (rule loop_run_chunk_loop)
  then have "chunk_loop chunk_size (split_into_sentences self text) [] [] = (chunks, cur)"
    using a(1) by (rule loop_run_deterministic [symmetric])
  then show "result = chunk_text self text chunk_size overlap"
    using a(2) by (simp add: chunk_text_def)
next
  assume "result = chunk_text self text chunk_size overlap"
  then show "chunk_text_run self text chunk_size overlap result"
    by (simp add: chunk_text_run_chunk_text)
qed

section \<open>Properties of query processing\<close>

text \<open>
  C5.  \<open>validate_query\<close> returns true exactly when the query is not empty after stripping
  whitespace and has at most 1000 characters (the length is that of the query as given,
  before stripping).  For every query that violates one of the two constraints the chat
  operation answers with a client error and makes no call to the completion service.
\<close>

theorem validate_query_chat:
  "(validate_query q \<longleftrightarrow> py_strip q \<noteq> [] \<and> length q \<le> 1000)
   \<and> (\<not> (py_strip q \<noteq> [] \<and> length q \<le> 1000) \<longrightarrow>
        (\<exists>v. reply (chat retrieve completion q) = ClientError v)
        \<and> completion_calls (chat retrieve completion q) = [])"
proof -
  have "py_strip q \<noteq> [] \<Longrightarrow> q \<noteq> []"
    by (auto simp: py_strip_def)
  then have v: "validate_query q \<longleftrightarrow> py_strip q \<noteq> [] \<and> length q \<le> 1000"
    by (auto simp: validate_query_def)
  show ?thesis
    unfolding v [symmetric] by (simp add: chat_def)
qed

theorem validate_query_chat_witness:
  "\<not> (py_strip long_query \<noteq> [] \<and> length long_query \<le> 1000)
   \<and> \<not> validate_query long_query
   \<and> (\<exists>v. reply (chat (\<lambda>q. []) (\<lambda>p. ''ok'') long_query) = ClientError v)
   \<and> completion_calls (chat (\<lambda>q. []) (\<lambda>p. ''ok'') long_query) = []"
proof -
  have h: "\<not> (py_strip long_query \<noteq> [] \<and> length long_query \<le> 1000)"
    by (simp add: long_query_def)
  show ?thesis
    using h validate_query_chat [of long_query "\<lambda>q. []" "\<lambda>p. ''ok''"] by blast
qed

text \<open>
  C6.  \<open>enhance_query\<close> is a function of the raw query and of nothing else, and it only
  adds fixed keywords: the raw query appears verbatim inside the result, with the fixed
  keywords `` procedures policy'' appended after it.  The result starts with further fixed
  keywords, ``RA training ''.
\<close>

theorem enhance_query_keywords:
  "enhance_query q = ''RA training '' @ q @ '' procedures policy''
   \<and> sublist q (enhance_query q)
   \<and> suffix (q @ '' procedures policy'') (enhance_query q)
   \<and> length (enhance_query q) = length q + 30"
proof -
  have e: "enhance_query q = ''RA training '' @ q @ '' procedures policy''"
    by (simp add: enhance_query_def)
  have "sublist q (''RA training '' @ q @ '' procedures policy'')"
    by (rule sublist_appendI)
  moreover have "suffix (q @ '' procedures policy'') (''RA training '' @ q @ '' procedures policy'')"
    by (rule suffix_appendI) simp
  ultimately show ?thesis
    using e by simp
qed

lemma enhance_query_example:
  "enhance_query ''fire exits'' = ''RA training fire exits procedures policy''"
  by (simp add: enhance_query_def)

section \<open>Properties of the presentation of the confidence\<close>

text \<open>
  C9.  \<open>formatConfidence\<close> and \<open>getConfidenceColor\<close> partition the numbers in the same
  way: both round \<open>confidence * 100\<close> with \<open>Math.round\<close> and compare with 80, 60 and 40,
  so for every number (also NaN and the infinities) the label is \<open>High\<close> exactly when the
  colour is \<open>text-green-600\<close>, \<open>Medium\<close> exactly when it is \<open>text-yellow-600\<close>, \<open>Low\<close>
  exactly when it is \<open>text-orange-600\<close>, and \<open>Very Low\<close> exactly when it is
  \<open>text-red-600\<close>.
\<close>

theorem confidence_label_colour:
  "(formatConfidence c = ''High'' \<longleftrightarrow> getConfidenceColor c = ''text-green-600'')
   \<and> (formatConfidence c = ''Medium'' \<longleftrightarrow> getConfidenceColor c = ''text-yellow-600'')
   \<and> (formatConfidence c = ''Low'' \<longleftrightarrow> getConfidenceColor c = ''text-orange-600'')
   \<and> (formatConfidence c = ''Very Low'' \<longleftrightarrow> getConfidenceColor c = ''text-red-600'')"
  by (simp add: formatConfidence_def getConfidenceColor_def Let_def)


section \<open>Properties of the API client\<close>

text \<open>
  C10.  When the request fails with an axios error that carries a response with a body,
  \<open>sendChatMessage\<close> returns that body and does not throw.  When it throws, the error
  is \<open>Failed to send chat message\<close> and no response data was available: the failure was
  not an axios error, or it had no response, or the response had no body.
\<close>

theorem sendChatMessage_error_body:
  "(axios_post api request = Rejected (AxiosError (Some r)) \<and> error_data r = Some body
      \<longrightarrow> sendChatMessage api request = Inr body)
   \<and> (sendChatMessage api request = Inl e \<longrightarrow>
        e = ''Failed to send chat message''
        \<and> (axios_post api request = Rejected OtherError
           \<or> axios_post api request = Rejected (AxiosError None)
           \<or> (\<exists>r. axios_post api request = Rejected (AxiosError (Some r)) \<and> error_data r = None)))"
  by (auto simp: sendChatMessage_def split: post_result.splits request_error.splits option.splits)

theorem sendChatMessage_error_body_witness:
  "axios_post rejecting_api \<lparr>req_query = [], session_id = None\<rparr>
     = Rejected (AxiosError (Some
         \<lparr>http_status = 400,
          error_data = Some \<lparr>status = Error, data = None, message = Some ''Query cannot be empty'',
                             resp_timestamp = ''2024-01-15T14:30:45Z''\<rparr>\<rparr>))
   \<and> sendChatMessage rejecting_api \<lparr>req_query = [], session_id = None\<rparr>
     = Inr \<lparr>status = Error, data = None, message = Some ''Query cannot be empty'',
            resp_timestamp = ''2024-01-15T14:30:45Z''\<rparr>
   \<and> sendChatMessage offline_api \<lparr>req_query = ''hello'', session_id = None\<rparr>
     = Inl ''Failed to send chat message''
   \<and> axios_post offline_api \<lparr>req_query = ''hello'', session_id = None\<rparr> = Rejected (AxiosError None)"
proof -
  let ?body = "\<lparr>status = Error, data = None, message = Some ''Query cannot be empty'',
                resp_timestamp = ''2024-01-15T14:30:45Z''\<rparr>"
  let ?r = "\<lparr>http_status = 400, error_data = Some ?body\<rparr>"
  have p: "axios_post rejecting_api \<lparr>req_query = [], session_id = None\<rparr> = Rejected (AxiosError (Some ?r))"
    by (simp add: rejecting_api_def)
  have d: "error_data ?r = Some ?body"
    by simp
  have t: "sendChatMessage offline_api \<lparr>req_query = ''hello'', session_id = None\<rparr>
             = Inl ''Failed to send chat message''"
    by (simp add: sendChatMessage_def offline_api_def)
  have o: "axios_post offline_api \<lparr>req_query = ''hello'', session_id = None\<rparr> = Rejected (AxiosError None)"
    by (simp add: offline_api_def)
  show ?thesis
    using p d t o
      sendChatMessage_error_body [of rejecting_api "\<lparr>req_query = [], session_id = None\<rparr>" ?r ?body]
    by simp
qed

section \<open>Properties of the chat page\<close>

lemma loading_not_in_filtered:
  "loadingMessage clk q \<notin> set (filter (\<lambda>msg. msg_id msg \<noteq> id_at_send clk) ms)"
  by (simp add: loadingMessage_def)

lemma handleSendMessage_guard:
  "js_trim q = [] \<or> st_isLoading st \<Longrightarrow> handleSendMessage apiService clk st q = st"
  by (simp add: handleSendMessage_def)

text \<open>
  C7.  A chat interaction is initiated when \<open>handleSendMessage\<close> is called with a query
  that is not blank while no other request is in flight (otherwise the handler returns
  at once and nothing happens).  Whichever way the request ends, the message list is
  afterwards the former list without the messages that carry the identifier of the
  temporary loading message, followed by one new message that is not a loading message;
  the loading message is gone and the page is no longer loading.  In the two failure
  branches (the backend answered with an
  error response, or the request threw) the new message has confidence 0, no sources and
  no links.
\<close>

theorem handleSendMessage_settles:
  assumes "js_trim q \<noteq> []" and "\<not> st_isLoading st"
  shows "\<exists>m. messages (handleSendMessage apiService clk st q)
               = filter (\<lambda>msg. msg_id msg \<noteq> id_at_send clk) (messages st) @ [m]
             \<and> isLoading m = None
             \<and> loadingMessage clk q \<notin> set (messages (handleSendMessage apiService clk st q))
             \<and> \<not> st_isLoading (handleSendMessage apiService clk st q)
             \<and> ((case sendChatMessage apiService \<lparr>req_query = q, session_id = Some (sessionId st)\<rparr> of
                    Inl error \<Rightarrow> True
                  | Inr response \<Rightarrow> \<not> (status response = Success \<and> data response \<noteq> None))
                 \<longrightarrow> confidence m = Finite 0 \<and> sources m = [] \<and> links m = [])"
proof -
  let ?req = "\<lparr>req_query = q, session_id = Some (sessionId st)\<rparr>"
  let ?f = "filter (\<lambda>msg. msg_id msg \<noteq> id_at_send clk) (messages st)"
  have nl: "loadingMessage clk q \<notin> set ?f"
    by (rule loading_not_in_filtered)
  have f: "filter (\<lambda>msg. msg_id msg \<noteq> id_at_send clk) (messages st @ [loadingMessage clk q]) = ?f"
    by (simp add: loadingMessage_def)
  show ?thesis
  proof (cases "sendChatMessage apiService ?req")
    case (Inl e)
    then show ?thesis
      using assms nl f
      by (simp add: handleSendMessage_def Let_def errorMessage_def loadingMessage_def)
  next
    case (Inr response)
    then show ?thesis
      using assms nl f
      by (cases "data response")
         (auto simp: handleSendMessage_def Let_def errorMessage_def newMessage_def loadingMessage_def)
  qed
qed

theorem handleSendMessage_settles_witness:
  "js_trim ''What do I do during a fire?'' \<noteq> [] \<and> \<not> st_isLoading fresh_page
   \<and> messages (handleSendMessage offline_api noon fresh_page ''What do I do during a fire?'')
       = [errorMessage noon ''What do I do during a fire?''
            ''Sorry, I couldn't connect to the RAMate API. Please check if the backend server is running and try again.'']
   \<and> loadingMessage noon ''What do I do during a fire?''
        \<notin> set (messages (handleSendMessage offline_api noon fresh_page ''What do I do during a fire?''))"
proof -
  have t: "js_trim ''What do I do during a fire?'' \<noteq> []"
    by (simp add: js_trim_def js_isspace_def)
  have l: "\<not> st_isLoading fresh_page"
    by (simp add: fresh_page_def)
  have e: "messages (handleSendMessage offline_api noon fresh_page ''What do I do during a fire?'')
       = [errorMessage noon ''What do I do during a fire?''
            ''Sorry, I couldn't connect to the RAMate API. Please check if the backend server is running and try again.'']"
    using t by (simp add: handleSendMessage_def Let_def sendChatMessage_def offline_api_def fresh_page_def loadingMessage_def)
  show ?thesis
    using t l e handleSendMessage_settles [OF t l, of offline_api noon] by auto
qed

section \<open>Properties of the chat input\<close>

text \<open>
  C8 (as amended).  The chat input does not enforce the limit of 1000 characters.
  Whenever the input is neither loading nor disabled, \<open>handleSubmit\<close> calls
  \<open>onSendMessage\<close> with the trimmed text of every message whose trimmed text is not
  empty, whatever its length; the only messages it then rejects are the blank ones.
\<close>

theorem handleSubmit_sends:
  assumes "\<not> input_isLoading c" and "\<not> input_disabled c"
  shows "(js_trim (input_message c) \<noteq> [] \<longrightarrow>
            fst (handleSubmit c) = Some (js_trim (input_message c)))
         \<and> (fst (handleSubmit c) = None \<longrightarrow> js_trim (input_message c) = [])"
  using assms by (simp add: handleSubmit_def Let_def)

lemma js_trim_long_message: "js_trim long_message = replicate 1500 (CHR ''x'')"
  by (simp add: js_trim_def long_message_def js_isspace_def)

theorem handleSubmit_sends_witness:
  "\<not> input_isLoading \<lparr>input_message = long_message, input_isLoading = False, input_disabled = False\<rparr>
   \<and> \<not> input_disabled \<lparr>input_message = long_message, input_isLoading = False, input_disabled = False\<rparr>
   \<and> js_trim long_message \<noteq> []
   \<and> length (js_trim long_message) = 1500
   \<and> fst (handleSubmit \<lparr>input_message = long_message, input_isLoading = False, input_disabled = False\<rparr>)
       = Some (replicate 1500 (CHR ''x''))"
  using handleSubmit_sends [of "\<lparr>input_message = long_message, input_isLoading = False, input_disabled = False\<rparr>"]
  by (simp add: js_trim_long_message)

text \<open>
  The claim has \<open>handleSubmit\<close> call \<open>onSendMessage\<close> for every message with a non-empty
  trimmed text.  While a request is loading the handler returns before the call.
\<close>

theorem handleSubmit_counterexample:
  "js_trim ''hello'' \<noteq> []
   \<and> fst (handleSubmit \<lparr>input_message = ''hello'', input_isLoading = True, input_disabled = False\<rparr>) = None"
  by (simp add: handleSubmit_def js_trim_def js_isspace_def)

end
